theory Spec2Isabelle
  imports Main "HOL-Library.Multiset" "HOL-Library.Char_ord" "HOL-Library.List_Lexorder"
    "HOL-Library.Product_Lexorder"
begin

section \<open>Data model\<close>

text \<open>
  Timestamps. The source stores \<^verbatim>\<open>new Date().toISOString()\<close>, a fixed-width UTC
  string \<^verbatim>\<open>YYYY-MM-DDTHH:mm:ss.sssZ\<close>, and compares such strings with \<^verbatim>\<open>>\<close> and
  through IndexedDB key ranges. For years 0000 to 9999 the string order is the order of
  the instants, and \<^verbatim>\<open>new Date(str)\<close> gives the instant back, so a timestamp is
  modelled as the number of milliseconds since the epoch.
\<close>

type_synonym timestamp = int

text \<open>A row of the \<^verbatim>\<open>domains\<close> object store (key path \<^verbatim>\<open>domain\<close>).\<close>

record aggregate =
  domain :: string
  firstVisit :: timestamp
  lastVisit :: timestamp
  visitCount :: int

text \<open>
  A row of the \<^verbatim>\<open>visits\<close> object store (key path \<^verbatim>\<open>id\<close>, auto-increment). The
  fields \<^verbatim>\<open>id\<close> and \<^verbatim>\<open>domain\<close> are named \<open>visit_id\<close> and \<open>visit_domain\<close> here.
\<close>

record visit =
  visit_id :: nat
  visit_domain :: string
  timestamp :: timestamp

text \<open>
  The database of schema version 2: both object stores and the key generator of
  \<^verbatim>\<open>visits\<close>. The rows of \<^verbatim>\<open>visits\<close> are kept in insertion order, which is the order of
  their keys.
\<close>

record store =
  domains :: "aggregate list"
  visits :: "visit list"
  nextId :: nat

definition emptyStore :: store where
  "emptyStore = \<lparr>domains = [], visits = [], nextId = 1\<rparr>"

text \<open>\<^verbatim>\<open>objectStore.get(key)\<close> and \<^verbatim>\<open>objectStore.put(value)\<close> on the \<^verbatim>\<open>domains\<close> store.\<close>

definition get :: "string \<Rightarrow> aggregate list \<Rightarrow> aggregate option" where
  "get d ds = find (\<lambda>a. domain a = d) ds"

definition put :: "aggregate \<Rightarrow> aggregate list \<Rightarrow> aggregate list" where
  "put a ds = a # filter (\<lambda>x. domain x \<noteq> domain a) ds"

section \<open>Recording a visit\<close>

text \<open>
  IndexedDB requests fail asynchronously. A call is given the request that fails, if any.
  The model of a transaction is IndexedDB's: a transaction commits all of its writes or
  none. When a request fails, an error event is fired at it, and unless a handler cancels
  the event with \<^verbatim>\<open>preventDefault()\<close> the transaction is aborted and every write made
  in it is undone, those of the requests that had succeeded included. No handler of the
  source calls \<^verbatim>\<open>preventDefault()\<close>, so a call with a fault leaves the database as it
  was, whatever its handler does with the promise.
\<close>

datatype fault = NoFault | OpenFails | GetFails | PutFails | AddFails

datatype error =
  FailedToOpenDatabase | FailedToGetDomain | FailedToSaveDomain
  | FailedToFetchDomains | FailedToFetchVisits | FailedToClearDomains | FailedToClearVisits

text \<open>The object literal \<^verbatim>\<open>domainData\<close> of \<^verbatim>\<open>addOrUpdateDomain\<close>.\<close>

definition domainData :: "aggregate option \<Rightarrow> string \<Rightarrow> timestamp \<Rightarrow> aggregate" where
  "domainData existingData d now =
     (case existingData of
        Some e \<Rightarrow> \<lparr>domain = d, firstVisit = firstVisit e, lastVisit = now,
                   visitCount = visitCount e + 1\<rparr>
      | None \<Rightarrow> \<lparr>domain = d, firstVisit = now, lastVisit = now, visitCount = 1\<rparr>)"

text \<open>
  \<^verbatim>\<open>DomainDB.addOrUpdateDomain\<close> of schema version 1 (\<^verbatim>\<open>background.js\<close>, and the
  stand-alone module): one transaction on \<^verbatim>\<open>domains\<close>, a \<^verbatim>\<open>get\<close> then a \<^verbatim>\<open>put\<close>.
  The result is the promise's outcome and the database after the transaction.
\<close>

definition addOrUpdateDomain_v1 ::
  "string \<Rightarrow> timestamp \<Rightarrow> fault \<Rightarrow> aggregate list \<Rightarrow> (error + aggregate) \<times> aggregate list" where
  "addOrUpdateDomain_v1 d now f ds =
     (if f = OpenFails then (Inl FailedToOpenDatabase, ds)
      else if f = GetFails then (Inl FailedToGetDomain, ds)
      else if f = PutFails then (Inl FailedToSaveDomain, ds)
      else (Inr (domainData (get d ds) d now), put (domainData (get d ds) d now) ds))"

text \<open>
  \<^verbatim>\<open>DomainDB.addOrUpdateDomain\<close> of schema version 2: one transaction on \<^verbatim>\<open>domains\<close>
  and \<^verbatim>\<open>visits\<close>; \<^verbatim>\<open>get\<close>, then \<^verbatim>\<open>put\<close>, then \<^verbatim>\<open>add\<close> of the visit row. When the
  \<^verbatim>\<open>add\<close> fails the promise is still resolved with \<^verbatim>\<open>domainData\<close>, and the error event,
  not prevented, aborts the transaction, which undoes the \<^verbatim>\<open>put\<close>.
\<close>

definition addOrUpdateDomain ::
  "string \<Rightarrow> timestamp \<Rightarrow> fault \<Rightarrow> store \<Rightarrow> (error + aggregate) \<times> store" where
  "addOrUpdateDomain d now f s =
     (if f = OpenFails then (Inl FailedToOpenDatabase, s)
      else if f = GetFails then (Inl FailedToGetDomain, s)
      else if f = PutFails then (Inl FailedToSaveDomain, s)
      else if f = AddFails then (Inr (domainData (get d (domains s)) d now), s)
      else (Inr (domainData (get d (domains s)) d now),
            s\<lparr>domains := put (domainData (get d (domains s)) d now) (domains s),
              visits := visits s @ [\<lparr>visit_id = nextId s, visit_domain = d, timestamp = now\<rparr>],
              nextId := nextId s + 1\<rparr>))"

text \<open>A sequence of calls, each with its domain, its clock reading and its fault.\<close>

type_synonym call = "string \<times> timestamp \<times> fault"

definition recordVisits_v1 :: "call list \<Rightarrow> aggregate list \<Rightarrow> aggregate list" where
  "recordVisits_v1 cs ds = foldl (\<lambda>acc (d, now, f). snd (addOrUpdateDomain_v1 d now f acc)) ds cs"

definition recordVisits :: "call list \<Rightarrow> store \<Rightarrow> store" where
  "recordVisits cs s = foldl (\<lambda>acc (d, now, f). snd (addOrUpdateDomain d now f acc)) s cs"

text \<open>
  The calls for a domain whose transaction commits: the accepted visits of that domain.
  Version 1 makes no \<^verbatim>\<open>add\<close> request, so \<open>AddFails\<close> is no fault there.
\<close>

definition commits :: "fault \<Rightarrow> bool" where
  "commits f = (f = NoFault)"

definition commits_v1 :: "fault \<Rightarrow> bool" where
  "commits_v1 f = (f = NoFault \<or> f = AddFails)"

definition accepted :: "(fault \<Rightarrow> bool) \<Rightarrow> string \<Rightarrow> call list \<Rightarrow> call list" where
  "accepted ok D cs = filter (\<lambda>(d, now, f). d = D \<and> ok f) cs"

text \<open>
  What a domain's row is after a sequence of accepted calls, starting from the row
  \<open>e\<close>: each call applies \<open>domainData\<close> to the row before it.
\<close>

definition replay :: "string \<Rightarrow> aggregate option \<Rightarrow> call list \<Rightarrow> aggregate option" where
  "replay D e cs = foldl (\<lambda>acc (d, now, f). Some (domainData acc D now)) e cs"

section \<open>Clearing the database\<close>

datatype clear_fault = ClearOk | ClearOpenFails | ClearDomainsFails | ClearVisitsFails

text \<open>
  \<^verbatim>\<open>DomainDB.clearAllDomains\<close> of schema version 1: one transaction on \<^verbatim>\<open>domains\<close>, one
  \<^verbatim>\<open>clear\<close> request. Version 1 has no \<^verbatim>\<open>visits\<close> store, so \<open>ClearVisitsFails\<close> is no
  fault there.
\<close>

definition clearAllDomains_v1 :: "clear_fault \<Rightarrow> aggregate list \<Rightarrow> (error + unit) \<times> aggregate list" where
  "clearAllDomains_v1 f ds =
     (if f = ClearOpenFails then (Inl FailedToOpenDatabase, ds)
      else if f = ClearDomainsFails then (Inl FailedToClearDomains, ds)
      else (Inr (), []))"

text \<open>
  \<^verbatim>\<open>DomainDB.clearAllDomains\<close> of schema version 2: one transaction on both stores, a
  \<^verbatim>\<open>clear\<close> request on each. The promise resolves when both requests have succeeded and
  rejects when one fails; the failed request aborts the transaction, so the other store's
  \<^verbatim>\<open>clear\<close> is undone. \<^verbatim>\<open>clear\<close> does not reset the key generator.
\<close>

definition clearAllDomains :: "clear_fault \<Rightarrow> store \<Rightarrow> (error + unit) \<times> store" where
  "clearAllDomains f s =
     (if f = ClearOpenFails then (Inl FailedToOpenDatabase, s)
      else if f = ClearDomainsFails then (Inl FailedToClearDomains, s)
      else if f = ClearVisitsFails then (Inl FailedToClearVisits, s)
      else (Inr (), s\<lparr>domains := [], visits := []\<rparr>))"

section \<open>Reading the database\<close>

datatype read_fault = ReadOk | ReadOpenFails | DomainsCursorFails | VisitsCursorFails

text \<open>
  \<^verbatim>\<open>DomainDB.getAllDomains(sortBy)\<close>: a cursor over the index named \<^verbatim>\<open>sortBy\<close> in
  direction \<^verbatim>\<open>prev\<close> (descending index key, then descending primary key), or over the
  store itself (ascending primary key) for any other \<^verbatim>\<open>sortBy\<close>. Primary keys are
  compared as strings.
\<close>

definition getAllDomains :: "string \<Rightarrow> read_fault \<Rightarrow> aggregate list \<Rightarrow> error + aggregate list" where
  "getAllDomains sortBy f ds =
     (if f = ReadOpenFails then Inl FailedToOpenDatabase
      else if f = DomainsCursorFails then Inl FailedToFetchDomains
      else if sortBy = ''lastVisit'' then Inr (rev (sort_key (\<lambda>a. (lastVisit a, domain a)) ds))
      else if sortBy = ''visitCount'' then Inr (rev (sort_key (\<lambda>a. (visitCount a, domain a)) ds))
      else Inr (sort_key domain ds))"

subsection \<open>Local time\<close>

text \<open>
  The time zone belongs to the platform and is a parameter: \<open>localTime\<close> is ECMAScript's
  \<^verbatim>\<open>LocalTime(t)\<close>, the local time value of an instant under the zone's rules (daylight
  saving included), and \<open>utc\<close> is ECMAScript's \<^verbatim>\<open>UTC(t)\<close>, the instant that the \<^verbatim>\<open>Date\<close>
  constructor gives for a local time value. \<open>localDate\<close> is the local calendar date of an
  instant as a day number, \<^verbatim>\<open>Day(LocalTime(t))\<close>: \<^verbatim>\<open>getFullYear()\<close>, \<^verbatim>\<open>getMonth()\<close> and
  \<^verbatim>\<open>getDate()\<close> are its year, month and day, and \<^verbatim>\<open>toDateString()\<close> prints them.
  \<open>localMidnight\<close> is \<^verbatim>\<open>new Date(now.getFullYear(), now.getMonth(), now.getDate())\<close>: the
  constructor's instant for time 0 of that date.
\<close>

record zone =
  localTime :: "timestamp \<Rightarrow> int"
  utc :: "int \<Rightarrow> timestamp"

definition msPerDay :: int where
  "msPerDay = 24 * 60 * 60 * 1000"

definition localDate :: "zone \<Rightarrow> timestamp \<Rightarrow> int" where
  "localDate z t = localTime z t div msPerDay"

definition localMidnight :: "zone \<Rightarrow> timestamp \<Rightarrow> timestamp" where
  "localMidnight z now = utc z (localDate z now * msPerDay)"

subsection \<open>Period queries of schema version 1\<close>



text \<open>\<^verbatim>\<open>filterByDate\<close> of \<^verbatim>\<open>background.js\<close> (schema version 1).\<close>

definition filterByDate_v1 :: "string \<Rightarrow> zone \<Rightarrow> timestamp \<Rightarrow> timestamp \<Rightarrow> bool" where
  "filterByDate_v1 period z now date =
     (if period = ''today'' then localDate z date = localDate z now
      else if period = ''week'' then date \<ge> now - 7 * msPerDay
      else if period = ''month'' then date \<ge> now - 30 * msPerDay
      else True)"

definition getDomainsForPeriod_v1 ::
  "string \<Rightarrow> zone \<Rightarrow> timestamp \<Rightarrow> read_fault \<Rightarrow> aggregate list \<Rightarrow> error + aggregate list" where
  "getDomainsForPeriod_v1 period z now f ds =
     (case getAllDomains ''lastVisit'' f ds of
        Inl e \<Rightarrow> Inl e
      | Inr all \<Rightarrow> Inr (filter (\<lambda>a. filterByDate_v1 period z now (lastVisit a)) all))"

subsection \<open>Period query of schema version 2\<close>

text \<open>The \<^verbatim>\<open>switch\<close> that computes \<^verbatim>\<open>startDate\<close>.\<close>

definition startDate :: "string \<Rightarrow> zone \<Rightarrow> timestamp \<Rightarrow> timestamp" where
  "startDate period z now =
     (if period = ''today'' then localMidnight z now
      else if period = ''week'' then now - 7 * msPerDay
      else if period = ''month'' then now - 30 * msPerDay
      else 0)"

text \<open>
  \<^verbatim>\<open>visitsIndex.openCursor(IDBKeyRange.lowerBound(start))\<close> on the \<^verbatim>\<open>timestamp\<close> index:
  the rows whose timestamp is at least \<open>start\<close>, by ascending timestamp and, among equal
  timestamps, by ascending key (the stable sort keeps the insertion order).
\<close>

definition openCursor :: "timestamp \<Rightarrow> visit list \<Rightarrow> visit list" where
  "openCursor start vs = filter (\<lambda>v. start \<le> timestamp v) (sort_key timestamp vs)"

text \<open>
  \<^verbatim>\<open>visitCounts\<close> and \<^verbatim>\<open>lastVisits\<close> are plain objects created by \<^verbatim>\<open>{}\<close>, so reading a
  key that the object does not own finds the property of that name on
  \<^verbatim>\<open>Object.prototype\<close>, if there is one. \<open>objectPrototypeKeys\<close> are the names of those
  properties: functions, and for \<^verbatim>\<open>__proto__\<close> the prototype object itself.

  A property value is \<open>Is x\<close>, a number in \<^verbatim>\<open>visitCounts\<close> and a timestamp in
  \<^verbatim>\<open>lastVisits\<close>, or \<open>Other\<close>: an inherited function or object, or the string that
  \<^verbatim>\<open>+ 1\<close> makes of one. An \<open>Other\<close> value is truthy, \<^verbatim>\<open>+ 1\<close> makes a string of it, which
  is \<open>Other\<close> again, and \<^verbatim>\<open>> 0\<close> is false of it (it converts to \<^verbatim>\<open>NaN\<close>). A timestamp is
  never \<^verbatim>\<open>>\<close> an inherited value: the comparison is of strings, and the inherited
  values print as \<^verbatim>\<open>function ...\<close> or \<^verbatim>\<open>[object Object]\<close>, after every timestamp.
\<close>

definition objectPrototypeKeys :: "string list" where
  "objectPrototypeKeys =
     [''constructor'', ''__proto__'', ''__defineGetter__'', ''__defineSetter__'',
      ''__lookupGetter__'', ''__lookupSetter__'', ''hasOwnProperty'', ''isPrototypeOf'',
      ''propertyIsEnumerable'', ''toLocaleString'', ''toString'', ''valueOf'']"

datatype 'a entry = Is 'a | Other

definition emptyObject :: "string \<Rightarrow> 'a entry option" where
  "emptyObject k = (if k \<in> set objectPrototypeKeys then Some Other else None)"

text \<open>
  The cursor callback's update of the two objects for one row. A stored timestamp is a
  non-empty string, so \<^verbatim>\<open>!lastVisits[d]\<close> holds exactly when no property is found. A count
  that is a number is at least 1, so \<^verbatim>\<open>visitCounts[d] || 0\<close> is that number. The write of
  \<^verbatim>\<open>visitCounts['__proto__']\<close> is dropped by the setter of that property, which leaves
  the value \<open>Other\<close> that the update would write.
\<close>

type_synonym tally = "(string \<Rightarrow> int entry option) \<times> (string \<Rightarrow> timestamp entry option)"

definition onVisit :: "tally \<Rightarrow> visit \<Rightarrow> tally" where
  "onVisit t v =
     (case t of (visitCounts, lastVisits) \<Rightarrow>
        (visitCounts(visit_domain v \<mapsto>
           (case visitCounts (visit_domain v) of
              None \<Rightarrow> Is 1
            | Some (Is n) \<Rightarrow> Is (n + 1)
            | Some Other \<Rightarrow> Other)),
         (if (case lastVisits (visit_domain v) of
                None \<Rightarrow> True
              | Some (Is l) \<Rightarrow> timestamp v > l
              | Some Other \<Rightarrow> False)
          then lastVisits(visit_domain v \<mapsto> Is (timestamp v)) else lastVisits)))"

definition scan :: "visit list \<Rightarrow> tally" where
  "scan rows = foldl onVisit (emptyObject, emptyObject) rows"

text \<open>A record of the response: the row's fields and \<^verbatim>\<open>periodVisitCount\<close>.\<close>

record periodAggregate = aggregate +
  periodVisitCount :: int

text \<open>
  The \<^verbatim>\<open>filter\<close> and the \<^verbatim>\<open>map\<close> that build \<^verbatim>\<open>result\<close>, for one row: \<open>None\<close> when the
  filter \<^verbatim>\<open>visitCounts[domain.domain] > 0\<close> drops the row, and the mapped record
  otherwise. The filter passes a row only when its count is a number, and a key whose
  count is a number has a timestamp in \<^verbatim>\<open>lastVisits\<close> (lemma \<open>scan_number_timestamp\<close>), so
  an \<open>Other\<close> value never reaches the record.
\<close>

definition periodRow :: "tally \<Rightarrow> aggregate \<Rightarrow> periodAggregate option" where
  "periodRow t a =
     (case fst t (domain a) of
        Some (Is n) \<Rightarrow>
          if n > 0 then
            Some \<lparr>domain = domain a, firstVisit = firstVisit a,
                  lastVisit = (case snd t (domain a) of Some (Is l) \<Rightarrow> l | _ \<Rightarrow> lastVisit a),
                  visitCount = n, periodVisitCount = n\<rparr>
          else None
      | _ \<Rightarrow> None)"

definition getDomainsForPeriod ::
  "string \<Rightarrow> zone \<Rightarrow> timestamp \<Rightarrow> read_fault \<Rightarrow> store \<Rightarrow> error + periodAggregate list" where
  "getDomainsForPeriod period z now f s =
     (case getAllDomains ''lastVisit'' f (domains s) of
        Inl e \<Rightarrow> Inl e
      | Inr all \<Rightarrow>
          if f = VisitsCursorFails then Inl FailedToFetchVisits
          else Inr (List.map_filter
                      (periodRow (scan (openCursor (startDate period z now) (visits s)))) all))"

text \<open>
  \<^verbatim>\<open>DomainDB.init\<close> of schema version 2 on a database of schema version 1: the upgrade
  keeps the rows of \<^verbatim>\<open>domains\<close> and creates \<^verbatim>\<open>visits\<close> empty.
\<close>

definition upgrade :: "aggregate list \<Rightarrow> store" where
  "upgrade ds = \<lparr>domains = ds, visits = [], nextId = 1\<rparr>"

subsection \<open>The periods of the specification\<close>

text \<open>
  The period tags and the start of each period as the specification words it: for
  \<^verbatim>\<open>today\<close> the local midnight of the current day, for \<^verbatim>\<open>week\<close> now less 7 times 24 hours,
  for \<^verbatim>\<open>month\<close> now less 30 times 24 hours, for \<^verbatim>\<open>all\<close> the start of the epoch. The
  matching visit events of a domain are its visit rows from that start on.
\<close>

datatype period = Today | Week | Month | All

fun tag :: "period \<Rightarrow> string" where
  "tag Today = ''today''"
| "tag Week = ''week''"
| "tag Month = ''month''"
| "tag All = ''all''"

fun startBoundary :: "zone \<Rightarrow> period \<Rightarrow> timestamp \<Rightarrow> timestamp" where
  "startBoundary z Today now = utc z ((localTime z now div 86400000) * 86400000)"
| "startBoundary z Week now = now - 7 * (24 * 3600000)"
| "startBoundary z Month now = now - 30 * (24 * 3600000)"
| "startBoundary z All now = 0"

definition matchingVisits :: "zone \<Rightarrow> period \<Rightarrow> timestamp \<Rightarrow> string \<Rightarrow> store \<Rightarrow> visit list" where
  "matchingVisits z p now D s =
     filter (\<lambda>v. visit_domain v = D \<and> startBoundary z p now \<le> timestamp v) (visits s)"

text \<open>The store's referential integrity: every visit row's domain has a row.\<close>

definition visitsHaveAggregate :: "store \<Rightarrow> bool" where
  "visitsHaveAggregate s = list_all (\<lambda>v. get (visit_domain v) (domains s) \<noteq> None) (visits s)"

section \<open>The \<^verbatim>\<open>getDomains\<close> message\<close>

text \<open>\<^verbatim>\<open>x || d\<close> for a request field that is a string or absent.\<close>

definition orElse :: "string option \<Rightarrow> string \<Rightarrow> string" where
  "orElse x d = (case x of None \<Rightarrow> d | Some v \<Rightarrow> if v = [] then d else v)"

text \<open>
  \<^verbatim>\<open>Array.prototype.sort\<close> is stable, and the comparators \<^verbatim>\<open>b.visitCount - a.visitCount\<close>
  and \<^verbatim>\<open>new Date(b.lastVisit) - new Date(a.lastVisit)\<close> order by descending key: a
  stable ascending sort on the negated key.

  The handler of \<^verbatim>\<open>background.js\<close> (schema version 1) does not read \<^verbatim>\<open>request.sortBy\<close>.
\<close>

definition getDomains_v1 ::
  "string option \<Rightarrow> string option \<Rightarrow> zone \<Rightarrow> timestamp \<Rightarrow> read_fault \<Rightarrow> aggregate list
     \<Rightarrow> error + aggregate list" where
  "getDomains_v1 period sortBy z now f ds =
     (case getDomainsForPeriod_v1 (orElse period ''all'') z now f ds of
        Inl e \<Rightarrow> Inl e
      | Inr found \<Rightarrow> Inr (sort_key (\<lambda>a. - visitCount a) found))"

definition getDomains ::
  "string option \<Rightarrow> string option \<Rightarrow> zone \<Rightarrow> timestamp \<Rightarrow> read_fault \<Rightarrow> store
     \<Rightarrow> error + periodAggregate list" where
  "getDomains period sortBy z now f s =
     (case getDomainsForPeriod (orElse period ''all'') z now f s of
        Inl e \<Rightarrow> Inl e
      | Inr found \<Rightarrow>
          if orElse sortBy ''lastVisit'' = ''visitCount''
            then Inr (sort_key (\<lambda>a. - visitCount a) found)
          else if orElse sortBy ''lastVisit'' = ''lastVisit''
            then Inr (sort_key (\<lambda>a. - lastVisit a) found)
          else Inr found)"

text \<open>A sequence is in descending order of a key.\<close>

definition descendingBy :: "('a \<Rightarrow> int) \<Rightarrow> 'a list \<Rightarrow> bool" where
  "descendingBy k xs = sorted (rev (map k xs))"

section \<open>The navigation listener\<close>

text \<open>
  The listener receives the navigations that the browser has committed. \<open>scheme\<close> lists
  the URL schemes of such navigations, and \<open>protocol\<close> gives the string that
  \<^verbatim>\<open>url.protocol\<close> holds for each. \<^verbatim>\<open>new URL(s)\<close> belongs to the platform: the listener has
  a parameter \<open>parseURL\<close> for it, \<open>None\<close> when the constructor throws, as it does on the
  empty string (\<open>newURL\<close>).
\<close>

datatype scheme =
  Http | Https | File | Ftp | About | Data | Blob | Filesystem | Javascript | ViewSource
  | Chrome | ChromeExtension | ChromeError | ChromeSearch | ChromeUntrusted | Devtools

fun protocol :: "scheme \<Rightarrow> string" where
  "protocol Http = ''http:''"
| "protocol Https = ''https:''"
| "protocol File = ''file:''"
| "protocol Ftp = ''ftp:''"
| "protocol About = ''about:''"
| "protocol Data = ''data:''"
| "protocol Blob = ''blob:''"
| "protocol Filesystem = ''filesystem:''"
| "protocol Javascript = ''javascript:''"
| "protocol ViewSource = ''view-source:''"
| "protocol Chrome = ''chrome:''"
| "protocol ChromeExtension = ''chrome-extension:''"
| "protocol ChromeError = ''chrome-error:''"
| "protocol ChromeSearch = ''chrome-search:''"
| "protocol ChromeUntrusted = ''chrome-untrusted:''"
| "protocol Devtools = ''devtools:''"

record URL =
  scheme :: scheme
  hostname :: string

definition newURL :: "(string \<Rightarrow> URL option) \<Rightarrow> string \<Rightarrow> URL option" where
  "newURL parseURL s = (if s = [] then None else parseURL s)"

record details =
  frameId :: int
  transitionType :: string
  transitionQualifiers :: "string list option"
  url :: string

definition userInitiatedTransitions :: "string list" where
  "userInitiatedTransitions =
     [''typed'', ''auto_bookmark'', ''auto_toplevel'', ''form_submit'', ''reload'', ''link'']"

definition isUserInitiated :: "details \<Rightarrow> bool" where
  "isUserInitiated d =
     (transitionType d \<in> set userInitiatedTransitions
      \<or> ''from_address_bar'' \<in> set (case transitionQualifiers d of None \<Rightarrow> [] | Some q \<Rightarrow> q))"

definition startsWith :: "string \<Rightarrow> string \<Rightarrow> bool" where
  "startsWith s p = (take (length p) s = p)"

text \<open>
  The \<^verbatim>\<open>webNavigation.onCommitted\<close> listener, in two parts. \<open>onCommitted\<close> is the
  listener up to its call of \<^verbatim>\<open>addOrUpdateDomain\<close>: the hostname it passes, \<open>None\<close> when it
  makes no call. \<open>onCommittedWrite\<close> is the listener's effect on the database of schema
  version 2, given the clock reading and the fault of the write, and
  \<open>onCommittedWrite_v1\<close> its effect on the database of schema version 1.
\<close>

definition onCommitted :: "(string \<Rightarrow> URL option) \<Rightarrow> bool \<Rightarrow> details \<Rightarrow> string option" where
  "onCommitted parseURL trackingEnabled d =
     (if \<not> trackingEnabled then None
      else if frameId d = 0 then
        (if isUserInitiated d \<and> url d \<noteq> [] then
           (case newURL parseURL (url d) of
              None \<Rightarrow> None
            | Some u \<Rightarrow>
                if hostname u \<noteq> [] \<and> startsWith (protocol (scheme u)) ''http''
                then Some (hostname u)
                else None)
         else None)
      else None)"

definition onCommittedWrite ::
  "(string \<Rightarrow> URL option) \<Rightarrow> bool \<Rightarrow> timestamp \<Rightarrow> fault \<Rightarrow> details \<Rightarrow> store \<Rightarrow> store" where
  "onCommittedWrite parseURL trackingEnabled now f d s =
     (case onCommitted parseURL trackingEnabled d of
        None \<Rightarrow> s
      | Some h \<Rightarrow> snd (addOrUpdateDomain h now f s))"

definition onCommittedWrite_v1 ::
  "(string \<Rightarrow> URL option) \<Rightarrow> bool \<Rightarrow> timestamp \<Rightarrow> fault \<Rightarrow> details \<Rightarrow> aggregate list
     \<Rightarrow> aggregate list" where
  "onCommittedWrite_v1 parseURL trackingEnabled now f d ds =
     (case onCommitted parseURL trackingEnabled d of
        None \<Rightarrow> ds
      | Some h \<Rightarrow> snd (addOrUpdateDomain_v1 h now f ds))"

text \<open>
  The conditions under which the specification has a navigation recorded: a top-level
  event, tracking enabled, a URL that parses with scheme http or https and a hostname
  that is not empty, and a transition type of the list or the qualifier
  \<^verbatim>\<open>from_address_bar\<close>.
\<close>

definition counted :: "(string \<Rightarrow> URL option) \<Rightarrow> bool \<Rightarrow> details \<Rightarrow> bool" where
  "counted parseURL trackingEnabled d =
     (frameId d = 0 \<and> trackingEnabled
      \<and> (case newURL parseURL (url d) of
            None \<Rightarrow> False
          | Some u \<Rightarrow> (scheme u = Http \<or> scheme u = Https) \<and> hostname u \<noteq> [])
      \<and> (transitionType d = ''typed'' \<or> transitionType d = ''auto_bookmark''
         \<or> transitionType d = ''auto_toplevel'' \<or> transitionType d = ''form_submit''
         \<or> transitionType d = ''reload'' \<or> transitionType d = ''link''
         \<or> (case transitionQualifiers d of
               None \<Rightarrow> False
             | Some q \<Rightarrow> ''from_address_bar'' \<in> set q)))"

section \<open>Quota enforcement in the content script\<close>

text \<open>
  The page instance: the two flags on \<^verbatim>\<open>window\<close> and the elements that the script has
  appended to \<^verbatim>\<open>document.body\<close>, in order. The text of a notification is kept as its
  parts. The timers that remove a notification and the observer that puts the one overlay
  element back into the body create no element and are left out, and so are the visit
  popup and the info message, which are not enforcement. The arguments \<^verbatim>\<open>domain\<close>,
  \<^verbatim>\<open>visitCount\<close> (or \<^verbatim>\<open>visits\<close>) and \<^verbatim>\<open>max\<close> of the script's functions are named
  \<open>host\<close>, \<open>cnt\<close> and \<open>mx\<close>.
\<close>

datatype message = DailyLimitExceeded string int int | Literal string

datatype element = ThreatMessage message | HardBlockOverlay string int int

record page =
  quotaShown :: bool
  hardBlocked :: bool
  appended :: "element list"

definition freshPage :: page where
  "freshPage = \<lparr>quotaShown = False, hardBlocked = False, appended = []\<rparr>"

text \<open>
  The script's settings. \<open>siteQuotasCache\<close> gives the value that
  \<^verbatim>\<open>parseInt(siteQuotasCache[domain], 10)\<close> yields, \<open>None\<close> when it is \<^verbatim>\<open>NaN\<close> (no entry,
  or not a number).
\<close>

record settings =
  quotaEnabled :: bool
  hardBlockEnabled :: bool
  siteQuotasCache :: "string \<Rightarrow> int option"

definition showQuotaExceededMessage :: "message \<Rightarrow> page \<Rightarrow> page" where
  "showQuotaExceededMessage txt p =
     (if quotaShown p then p
      else p\<lparr>quotaShown := True, appended := appended p @ [ThreatMessage txt]\<rparr>)"

definition showHardBlockOverlay :: "string \<Rightarrow> int \<Rightarrow> int \<Rightarrow> page \<Rightarrow> page" where
  "showHardBlockOverlay host cnt mx p =
     (if hardBlocked p then p
      else p\<lparr>hardBlocked := True, appended := appended p @ [HardBlockOverlay host cnt mx]\<rparr>)"

definition maybeShowQuotaMessage :: "settings \<Rightarrow> string \<Rightarrow> int \<Rightarrow> page \<Rightarrow> page" where
  "maybeShowQuotaMessage cfg host cnt p =
     (let maxPerDay = (case siteQuotasCache cfg host of None \<Rightarrow> 0 | Some n \<Rightarrow> n) in
      if \<not> quotaEnabled cfg \<or> maxPerDay = 0 \<or> maxPerDay \<le> 0 then p
      else if cnt > maxPerDay
        then showQuotaExceededMessage (DailyLimitExceeded host cnt maxPerDay) p
      else p)"

definition maybeHardBlock :: "settings \<Rightarrow> string \<Rightarrow> int \<Rightarrow> page \<Rightarrow> page" where
  "maybeHardBlock cfg host cnt p =
     (let maxPerDay = (case siteQuotasCache cfg host of None \<Rightarrow> 0 | Some n \<Rightarrow> n) in
      if \<not> quotaEnabled cfg \<or> \<not> hardBlockEnabled cfg \<or> maxPerDay = 0 \<or> maxPerDay \<le> 0 then p
      else if cnt > maxPerDay then showHardBlockOverlay host cnt maxPerDay p
      else p)"

text \<open>
  The response callback of \<^verbatim>\<open>checkQuotaForCurrentDomain\<close>, given the count it found.
\<close>

definition checkQuota :: "settings \<Rightarrow> string \<Rightarrow> int \<Rightarrow> page \<Rightarrow> page" where
  "checkQuota cfg host cnt p =
     maybeHardBlock cfg host cnt (maybeShowQuotaMessage cfg host cnt p)"


text \<open>The ways the script reaches the two enforcement functions, and a run of them.\<close>

datatype invocation =
  QuotaExceeded message
  | HardBlock string int int
  | MaybeShowQuotaMessage settings string int
  | MaybeHardBlock settings string int

fun dispatch :: "page \<Rightarrow> invocation \<Rightarrow> page" where
  "dispatch p (QuotaExceeded txt) = showQuotaExceededMessage txt p"
| "dispatch p (HardBlock host cnt mx) = showHardBlockOverlay host cnt mx p"
| "dispatch p (MaybeShowQuotaMessage cfg host n) = maybeShowQuotaMessage cfg host n p"
| "dispatch p (MaybeHardBlock cfg host n) = maybeHardBlock cfg host n p"

fun isThreatMessage :: "element \<Rightarrow> bool" where
  "isThreatMessage (ThreatMessage txt) = True"
| "isThreatMessage (HardBlockOverlay host cnt mx) = False"

fun isOverlay :: "element \<Rightarrow> bool" where
  "isOverlay (ThreatMessage txt) = False"
| "isOverlay (HardBlockOverlay host cnt mx) = True"

section \<open>Predicates of the properties\<close>

text \<open>The clock reading of a call.\<close>

definition clock :: "call \<Rightarrow> timestamp" where
  "clock c = fst (snd c)"

text \<open>
  The visit rows of a domain, and two agreements of the domain's row with them. In both
  there is no row and no visit rows, or a row whose \<^verbatim>\<open>visitCount\<close> is the number of visit
  rows. In \<open>logged\<close> the row's \<^verbatim>\<open>lastVisit\<close> is the timestamp of the visit row appended
  last; in \<open>consistent\<close> it is the greatest timestamp of the visit rows.
\<close>

definition rowsFor :: "string \<Rightarrow> visit list \<Rightarrow> visit list" where
  "rowsFor D vs = filter (\<lambda>v. visit_domain v = D) vs"

definition logged :: "string \<Rightarrow> store \<Rightarrow> bool" where
  "logged D s =
     (case get D (domains s) of
        None \<Rightarrow> rowsFor D (visits s) = []
      | Some a \<Rightarrow> rowsFor D (visits s) \<noteq> []
          \<and> visitCount a = int (length (rowsFor D (visits s)))
          \<and> lastVisit a = timestamp (last (rowsFor D (visits s))))"

definition consistent :: "string \<Rightarrow> store \<Rightarrow> bool" where
  "consistent D s =
     (case get D (domains s) of
        None \<Rightarrow> rowsFor D (visits s) = []
      | Some a \<Rightarrow> rowsFor D (visits s) \<noteq> []
          \<and> visitCount a = int (length (rowsFor D (visits s)))
          \<and> lastVisit a = Max (timestamp ` set (rowsFor D (visits s))))"

text \<open>
  By how much a domain's \<^verbatim>\<open>visitCount\<close> (0 without a row) is ahead of the number of its
  visit rows.
\<close>

definition ahead :: "string \<Rightarrow> store \<Rightarrow> int" where
  "ahead D s =
     (case get D (domains s) of None \<Rightarrow> 0 | Some a \<Rightarrow> visitCount a)
       - int (length (rowsFor D (visits s)))"


text \<open>
  The page has appended exactly one notification if its flag is set and none otherwise,
  and the same for the overlay.
\<close>

definition atMostOnce :: "page \<Rightarrow> bool" where
  "atMostOnce p =
     (length (filter isThreatMessage (appended p)) = (if quotaShown p then 1 else 0)
      \<and> length (filter isOverlay (appended p)) = (if hardBlocked p then 1 else 0))"

section \<open>Example inputs\<close>

text \<open>
  Two zones: a fixed offset from UTC, and New York around the end of daylight saving in
  2024, four hours behind UTC before 2024-11-03T06:00Z (1730613600000) and five hours
  behind from then on. Of the two instants with the same local time the constructor
  takes the earlier.
\<close>

definition fixedZone :: "int \<Rightarrow> zone" where
  "fixedZone off = \<lparr>localTime = (\<lambda>t. t + off), utc = (\<lambda>l. l - off)\<rparr>"


text \<open>
  Four calls: two accepted visits of \<^verbatim>\<open>a.com\<close>, one of \<^verbatim>\<open>b.org\<close>, and a call for
  \<^verbatim>\<open>a.com\<close> whose \<^verbatim>\<open>put\<close> fails (\<open>calls1\<close>) or whose \<^verbatim>\<open>add\<close> fails (\<open>calls3\<close>).
\<close>

definition calls1 :: "call list" where
  "calls1 = [(''a.com'', 10, NoFault), (''b.org'', 11, NoFault), (''a.com'', 12, PutFails),
             (''a.com'', 15, NoFault)]"

definition calls3 :: "call list" where
  "calls3 = [(''a.com'', 10, NoFault), (''b.org'', 11, NoFault), (''a.com'', 12, AddFails),
             (''a.com'', 15, NoFault)]"

definition store1 :: store where
  "store1 = recordVisits calls1 emptyStore"

definition byCount :: "periodAggregate list" where
  "byCount =
     [\<lparr>domain = ''a.com'', firstVisit = 10, lastVisit = 15, visitCount = 2, periodVisitCount = 2\<rparr>,
      \<lparr>domain = ''b.org'', firstVisit = 11, lastVisit = 11, visitCount = 1, periodVisitCount = 1\<rparr>]"

text \<open>
  Two calls whose clock readings go backwards, and a database of schema version 1 with
  one row of five visits.
\<close>

definition clockBack :: "call list" where
  "clockBack = [(''a.com'', 100, NoFault), (''a.com'', 50, NoFault)]"

definition domains5 :: "aggregate list" where
  "domains5 = [\<lparr>domain = ''a.com'', firstVisit = 1, lastVisit = 9, visitCount = 5\<rparr>]"

text \<open>
  Two rows of schema version 1 whose orders by \<^verbatim>\<open>visitCount\<close> and by \<^verbatim>\<open>lastVisit\<close>
  differ.
\<close>

definition domains1 :: "aggregate list" where
  "domains1 = [\<lparr>domain = ''a.com'', firstVisit = 5, lastVisit = 20, visitCount = 1\<rparr>,
               \<lparr>domain = ''b.org'', firstVisit = 1, lastVisit = 10, visitCount = 2\<rparr>]"




text \<open>
  A database with two visits of the host \<^verbatim>\<open>constructor\<close> and one of \<^verbatim>\<open>a.com\<close>.
\<close>

definition callsC :: "call list" where
  "callsC = [(''constructor'', 10, NoFault), (''a.com'', 11, NoFault),
             (''constructor'', 12, NoFault)]"

definition storeC :: store where
  "storeC = recordVisits callsC emptyStore"



text \<open>Settings with a quota of 5 visits a day for \<^verbatim>\<open>a.com\<close>, without and with hard block.\<close>

definition cfgSoft :: settings where
  "cfgSoft = \<lparr>quotaEnabled = True, hardBlockEnabled = False,
              siteQuotasCache = (\<lambda>d. if d = ''a.com'' then Some 5 else None)\<rparr>"

definition cfgHard :: settings where
  "cfgHard = \<lparr>quotaEnabled = True, hardBlockEnabled = True,
              siteQuotasCache = (\<lambda>d. if d = ''a.com'' then Some 5 else None)\<rparr>"

definition invocations1 :: "invocation list" where
  "invocations1 = [MaybeShowQuotaMessage cfgHard ''a.com'' 6, MaybeHardBlock cfgHard ''a.com'' 6,
                   QuotaExceeded (Literal ''Daily limit exceeded for this site.''),
                   HardBlock ''a.com'' 7 5, MaybeShowQuotaMessage cfgHard ''a.com'' 7]"

text \<open>
  What \<^verbatim>\<open>new URL\<close> gives for two strings, and a top-level link navigation to each.
\<close>

definition parseURL1 :: "string \<Rightarrow> URL option" where
  "parseURL1 s =
     (if s = ''https://a.com/x'' then Some \<lparr>scheme = Https, hostname = ''a.com''\<rparr>
      else if s = ''chrome://settings/'' then Some \<lparr>scheme = Chrome, hostname = ''settings''\<rparr>
      else None)"

definition linkToHttps :: details where
  "linkToHttps = \<lparr>frameId = 0, transitionType = ''link'', transitionQualifiers = None,
                  url = ''https://a.com/x''\<rparr>"

definition linkToChrome :: details where
  "linkToChrome = \<lparr>frameId = 0, transitionType = ''link'', transitionQualifiers = None,
                   url = ''chrome://settings/''\<rparr>"

lemma store1_eq: "store1 =
  \<lparr>domains = [\<lparr>domain = ''a.com'', firstVisit = 10, lastVisit = 15, visitCount = 2\<rparr>,
              \<lparr>domain = ''b.org'', firstVisit = 11, lastVisit = 11, visitCount = 1\<rparr>],
   visits = [\<lparr>visit_id = 1, visit_domain = ''a.com'', timestamp = 10\<rparr>,
             \<lparr>visit_id = 2, visit_domain = ''b.org'', timestamp = 11\<rparr>,
             \<lparr>visit_id = 3, visit_domain = ''a.com'', timestamp = 15\<rparr>],
   nextId = 4\<rparr>"
  by (simp add: store1_def calls1_def recordVisits_def addOrUpdateDomain_def emptyStore_def
      get_def put_def domainData_def)


lemma storeC_eq: "storeC =
  \<lparr>domains = [\<lparr>domain = ''constructor'', firstVisit = 10, lastVisit = 12, visitCount = 2\<rparr>,
              \<lparr>domain = ''a.com'', firstVisit = 11, lastVisit = 11, visitCount = 1\<rparr>],
   visits = [\<lparr>visit_id = 1, visit_domain = ''constructor'', timestamp = 10\<rparr>,
             \<lparr>visit_id = 2, visit_domain = ''a.com'', timestamp = 11\<rparr>,
             \<lparr>visit_id = 3, visit_domain = ''constructor'', timestamp = 12\<rparr>],
   nextId = 4\<rparr>"
  by (simp add: storeC_def callsC_def recordVisits_def addOrUpdateDomain_def emptyStore_def
      get_def put_def domainData_def)

section \<open>Properties of recording a visit\<close>

lemma get_put: "get d (put a ds) = (if domain a = d then Some a else get d ds)"
  by (induction ds) (auto simp: get_def put_def)


lemma domain_domainData [simp]: "domain (domainData e d now) = d"
  by (simp add: domainData_def split: option.splits)

lemma get_addOrUpdateDomain_v1:
  "get D (snd (addOrUpdateDomain_v1 d now f ds)) =
     (if d = D \<and> commits_v1 f then Some (domainData (get D ds) D now) else get D ds)"
  by (cases f) (auto simp: addOrUpdateDomain_v1_def get_put commits_v1_def)

lemma get_addOrUpdateDomain:
  "get D (domains (snd (addOrUpdateDomain d now f s))) =
     (if d = D \<and> commits f then Some (domainData (get D (domains s)) D now)
      else get D (domains s))"
  by (cases f) (auto simp: addOrUpdateDomain_def get_put commits_def)

lemma accepted_snoc:
  "accepted ok D (cs @ [(d, now, f)]) =
     (if d = D \<and> ok f then accepted ok D cs @ [(d, now, f)] else accepted ok D cs)"
  by (simp add: accepted_def)

lemma recordVisits_v1_snoc:
  "recordVisits_v1 (cs @ [(d, now, f)]) ds =
     snd (addOrUpdateDomain_v1 d now f (recordVisits_v1 cs ds))"
  by (simp add: recordVisits_v1_def)

lemma recordVisits_snoc:
  "recordVisits (cs @ [(d, now, f)]) s = snd (addOrUpdateDomain d now f (recordVisits cs s))"
  by (simp add: recordVisits_def)

lemma get_recordVisits_v1:
  "get D (recordVisits_v1 cs ds) = replay D (get D ds) (accepted commits_v1 D cs)"
proof (induction cs rule: rev_induct)
  case Nil
  show ?case by (simp add: recordVisits_v1_def replay_def accepted_def)
next
  case (snoc c cs)
  obtain d now f where c: "c = (d, now, f)" by (cases c)
  from snoc show ?case
    by (simp add: c recordVisits_v1_snoc get_addOrUpdateDomain_v1 accepted_snoc replay_def)
qed

lemma get_recordVisits:
  "get D (domains (recordVisits cs s)) = replay D (get D (domains s)) (accepted commits D cs)"
proof (induction cs rule: rev_induct)
  case Nil
  show ?case by (simp add: recordVisits_def replay_def accepted_def)
next
  case (snoc c cs)
  obtain d now f where c: "c = (d, now, f)" by (cases c)
  from snoc show ?case
    by (simp add: c recordVisits_snoc get_addOrUpdateDomain accepted_snoc replay_def)
qed

lemma replay_None:
  "cs \<noteq> [] \<Longrightarrow> replay D None cs =
     Some \<lparr>domain = D, firstVisit = fst (snd (hd cs)), lastVisit = fst (snd (last cs)),
           visitCount = int (length cs)\<rparr>"
proof (induction cs rule: rev_induct)
  case Nil
  then show ?case by simp
next
  case (snoc c cs)
  obtain d now f where c: "c = (d, now, f)" by (cases c)
  show ?case
  proof (cases "cs = []")
    case True
    then show ?thesis by (simp add: replay_def c domainData_def)
  next
    case False
    with snoc have "replay D None cs = Some \<lparr>domain = D, firstVisit = fst (snd (hd cs)),
        lastVisit = fst (snd (last cs)), visitCount = int (length cs)\<rparr>" by simp
    moreover have "replay D None (cs @ [c]) = Some (domainData (replay D None cs) D now)"
      by (simp add: replay_def c)
    ultimately show ?thesis using False by (simp add: domainData_def c)
  qed
qed

text \<open>
  Claim C1. Let a domain have no row, and let a sequence of calls (for any domains, with
  any faults) contain N >= 1 accepted calls for it, that is calls for it whose
  transaction commits. Afterwards the domain's row has \<^verbatim>\<open>visitCount\<close> N, \<^verbatim>\<open>firstVisit\<close>
  the clock reading of the first accepted call and \<^verbatim>\<open>lastVisit\<close> the clock reading of
  the last one. This holds for \<^verbatim>\<open>addOrUpdateDomain\<close> of both schema versions.
\<close>

theorem visitCount_after_accepted_visits:
  "(get D (domains s) = None \<and> accepted commits D cs \<noteq> [] \<longrightarrow>
      get D (domains (recordVisits cs s)) =
        Some \<lparr>domain = D, firstVisit = fst (snd (hd (accepted commits D cs))),
              lastVisit = fst (snd (last (accepted commits D cs))),
              visitCount = int (length (accepted commits D cs))\<rparr>)
   \<and> (get D ds = None \<and> accepted commits_v1 D cs \<noteq> [] \<longrightarrow>
      get D (recordVisits_v1 cs ds) =
        Some \<lparr>domain = D, firstVisit = fst (snd (hd (accepted commits_v1 D cs))),
              lastVisit = fst (snd (last (accepted commits_v1 D cs))),
              visitCount = int (length (accepted commits_v1 D cs))\<rparr>)"
  by (simp add: get_recordVisits get_recordVisits_v1 replay_None)

text \<open>The claim at \<open>calls1\<close> on the empty database: two accepted visits of \<^verbatim>\<open>a.com\<close>.\<close>

theorem visitCount_after_accepted_visits_witness:
  "get ''a.com'' (domains emptyStore) = None \<and> accepted commits ''a.com'' calls1 \<noteq> [] \<and>
   get ''a.com'' (domains (recordVisits calls1 emptyStore)) =
     Some \<lparr>domain = ''a.com'', firstVisit = 10, lastVisit = 15, visitCount = 2\<rparr> \<and>
   get ''a.com'' [] = None \<and> accepted commits_v1 ''a.com'' calls1 \<noteq> [] \<and>
   get ''a.com'' (recordVisits_v1 calls1 []) =
     Some \<lparr>domain = ''a.com'', firstVisit = 10, lastVisit = 15, visitCount = 2\<rparr>"
  using visitCount_after_accepted_visits [of "''a.com''" emptyStore calls1 "[]"]
  by (simp add: calls1_def accepted_def commits_def commits_v1_def emptyStore_def get_def)

section \<open>The aggregate and the visit log\<close>

lemma addOrUpdateDomain_fault:
  "f \<noteq> NoFault \<Longrightarrow> snd (addOrUpdateDomain d now f s) = s"
  by (cases f) (simp_all add: addOrUpdateDomain_def)

lemma addOrUpdateDomain_NoFault:
  "snd (addOrUpdateDomain d now NoFault s) =
     s\<lparr>domains := put (domainData (get d (domains s)) d now) (domains s),
       visits := visits s @ [\<lparr>visit_id = nextId s, visit_domain = d, timestamp = now\<rparr>],
       nextId := nextId s + 1\<rparr>"
  by (simp add: addOrUpdateDomain_def)

lemma logged_addOrUpdateDomain:
  assumes "logged D s"
  shows "logged D (snd (addOrUpdateDomain d now f s))"
proof (cases "f = NoFault")
  case False
  with assms show ?thesis by (simp add: addOrUpdateDomain_fault)
next
  case True
  show ?thesis
  proof (cases "d = D")
    case False
    with assms show ?thesis
      by (simp add: True addOrUpdateDomain_NoFault logged_def get_put rowsFor_def
          split: option.splits)
  next
    case d: True
    show ?thesis
    proof (cases "get D (domains s)")
      case None
      with assms have "rowsFor D (visits s) = []" by (simp add: logged_def)
      then show ?thesis
        by (simp add: True d addOrUpdateDomain_NoFault logged_def get_put rowsFor_def
            domainData_def None)
    next
      case (Some a)
      with assms have "visitCount a = int (length (rowsFor D (visits s)))"
        by (simp add: logged_def)
      then show ?thesis
        by (simp add: True d addOrUpdateDomain_NoFault logged_def get_put rowsFor_def
            domainData_def Some)
    qed
  qed
qed

lemma logged_recordVisits: "logged D (recordVisits cs emptyStore)"
proof (induction cs rule: rev_induct)
  case Nil
  show ?case by (simp add: recordVisits_def logged_def emptyStore_def get_def rowsFor_def)
next
  case (snoc c cs)
  obtain d now f where c: "c = (d, now, f)" by (cases c)
  from snoc show ?case by (simp add: c recordVisits_snoc logged_addOrUpdateDomain)
qed

lemma ahead_addOrUpdateDomain: "ahead D (snd (addOrUpdateDomain d now f s)) = ahead D s"
proof (cases "f = NoFault")
  case False
  then show ?thesis by (simp add: addOrUpdateDomain_fault)
next
  case True
  then show ?thesis
    by (simp add: addOrUpdateDomain_NoFault ahead_def get_put rowsFor_def domainData_def
        split: option.splits)
qed

lemma ahead_recordVisits: "ahead D (recordVisits cs s) = ahead D s"
proof (induction cs rule: rev_induct)
  case Nil
  show ?case by (simp add: recordVisits_def)
next
  case (snoc c cs)
  obtain d now f where c: "c = (d, now, f)" by (cases c)
  from snoc show ?case by (simp add: c recordVisits_snoc ahead_addOrUpdateDomain)
qed

lemma consistent_addOrUpdateDomain:
  assumes "consistent D s" and "\<forall>v \<in> set (visits s). timestamp v \<le> now"
  shows "consistent D (snd (addOrUpdateDomain d now f s))"
proof (cases "f = NoFault")
  case False
  with assms(1) show ?thesis by (simp add: addOrUpdateDomain_fault)
next
  case True
  show ?thesis
  proof (cases "d = D")
    case False
    with assms(1) show ?thesis
      by (simp add: True addOrUpdateDomain_NoFault consistent_def get_put rowsFor_def
          split: option.splits)
  next
    case d: True
    let ?old = "rowsFor D (visits s)"
    have le: "\<forall>t \<in> timestamp ` set ?old. t \<le> now"
      using assms(2) by (auto simp: rowsFor_def)
    have mx: "Max (insert now (timestamp ` set ?old)) = now"
      using le by (intro Max_eqI) auto
    show ?thesis
    proof (cases "get D (domains s)")
      case None
      with assms(1) have "?old = []" by (simp add: consistent_def)
      then show ?thesis
        by (simp add: True d addOrUpdateDomain_NoFault consistent_def get_put rowsFor_def
            domainData_def None)
    next
      case (Some a)
      with assms(1) have "visitCount a = int (length ?old)" by (simp add: consistent_def)
      then show ?thesis using mx
        by (simp add: True d addOrUpdateDomain_NoFault consistent_def get_put rowsFor_def
            domainData_def Some)
    qed
  qed
qed

lemma timestamp_addOrUpdateDomain:
  "v \<in> set (visits (snd (addOrUpdateDomain d now f s))) \<Longrightarrow>
   v \<in> set (visits s) \<or> timestamp v = now"
  by (cases f) (auto simp: addOrUpdateDomain_def)

lemma timestamps_recordVisits:
  "v \<in> set (visits (recordVisits cs s)) \<Longrightarrow>
   v \<in> set (visits s) \<or> timestamp v \<in> clock ` set cs"
proof (induction cs arbitrary: v rule: rev_induct)
  case Nil
  then show ?case by (simp add: recordVisits_def)
next
  case (snoc c cs)
  obtain d now f where c: "c = (d, now, f)" by (cases c)
  from snoc.prems have "v \<in> set (visits (recordVisits cs s)) \<or> timestamp v = now"
    by (simp add: c recordVisits_snoc) (rule timestamp_addOrUpdateDomain)
  with snoc.IH show ?case by (auto simp: c clock_def)
qed

lemma consistent_recordVisits:
  assumes "sorted (map clock cs)"
  shows "consistent D (recordVisits cs emptyStore)"
  using assms
proof (induction cs rule: rev_induct)
  case Nil
  show ?case by (simp add: recordVisits_def consistent_def emptyStore_def get_def rowsFor_def)
next
  case (snoc c cs)
  obtain d now f where c: "c = (d, now, f)" by (cases c)
  have now: "clock c = now" by (simp add: c clock_def)
  from snoc.prems have srt: "sorted (map clock cs)" and le: "\<forall>t \<in> clock ` set cs. t \<le> now"
    by (auto simp: sorted_append now)
  have "\<forall>v \<in> set (visits (recordVisits cs emptyStore)). timestamp v \<le> now"
  proof
    fix v assume "v \<in> set (visits (recordVisits cs emptyStore))"
    then have "timestamp v \<in> clock ` set cs"
      using timestamps_recordVisits [of v cs emptyStore] by (simp add: emptyStore_def)
    with le show "timestamp v \<le> now" by blast
  qed
  with snoc.IH [OF srt] show ?case
    by (simp add: c recordVisits_snoc consistent_addOrUpdateDomain)
qed

text \<open>
  Claim C2, as amended. After every sequence of calls of \<^verbatim>\<open>addOrUpdateDomain\<close> (schema
  version 2) on a database that was created empty, whatever requests fail, each domain's
  \<^verbatim>\<open>visitCount\<close> is the number of its visit rows and its \<^verbatim>\<open>lastVisit\<close> is the timestamp
  of the visit row appended last; when the clock readings of the calls do not decrease,
  that is the greatest timestamp of its visit rows. A call with a failed request, the
  \<^verbatim>\<open>add\<close> of the visit row included, leaves the database as it was (the transaction is
  rolled back). A call without one writes both: the row, with \<^verbatim>\<open>lastVisit\<close> the clock
  reading and \<^verbatim>\<open>visitCount\<close> one more than before (1 without a row before), and one
  visit row. So from any database, a database upgraded from schema version 1 included,
  no sequence of calls changes by how much a domain's \<^verbatim>\<open>visitCount\<close> is ahead of the
  number of its visit rows.
\<close>

theorem aggregate_matches_visit_log:
  "logged D (recordVisits cs emptyStore)
   \<and> (sorted (map clock cs) \<longrightarrow> consistent D (recordVisits cs emptyStore))
   \<and> (logged D s \<longrightarrow> logged D (snd (addOrUpdateDomain d now f s)))
   \<and> (consistent D s \<and> (\<forall>v \<in> set (visits s). timestamp v \<le> now) \<longrightarrow>
        consistent D (snd (addOrUpdateDomain d now f s)))
   \<and> (f \<noteq> NoFault \<longrightarrow> snd (addOrUpdateDomain d now f s) = s)
   \<and> get d (domains (snd (addOrUpdateDomain d now NoFault s))) =
       Some (domainData (get d (domains s)) d now)
   \<and> visits (snd (addOrUpdateDomain d now NoFault s)) =
       visits s @ [\<lparr>visit_id = nextId s, visit_domain = d, timestamp = now\<rparr>]
   \<and> ahead D (recordVisits cs s) = ahead D s"
  by (simp add: logged_recordVisits consistent_recordVisits logged_addOrUpdateDomain
      consistent_addOrUpdateDomain addOrUpdateDomain_fault addOrUpdateDomain_NoFault get_put
      ahead_recordVisits)

text \<open>
  The claim as stated fails in two ways. When the clock goes backwards between two
  visits of \<^verbatim>\<open>a.com\<close>, at 100 and then at 50, the row's \<^verbatim>\<open>lastVisit\<close> is 50 and the
  greatest timestamp of its visit rows is 100. On a database upgraded from schema
  version 1 with a row that counts 5 visits, one more visit makes the count 6 with one
  visit row.
\<close>

theorem aggregate_matches_visit_log_counterexample:
  "get ''a.com'' (domains (recordVisits clockBack emptyStore)) =
     Some \<lparr>domain = ''a.com'', firstVisit = 100, lastVisit = 50, visitCount = 2\<rparr>
   \<and> Max (timestamp ` set (rowsFor ''a.com'' (visits (recordVisits clockBack emptyStore)))) = 100
   \<and> \<not> consistent ''a.com'' (recordVisits clockBack emptyStore)
   \<and> get ''a.com'' (domains (recordVisits [(''a.com'', 20, NoFault)] (upgrade domains5))) =
       Some \<lparr>domain = ''a.com'', firstVisit = 1, lastVisit = 20, visitCount = 6\<rparr>
   \<and> length (rowsFor ''a.com'' (visits (recordVisits [(''a.com'', 20, NoFault)]
                (upgrade domains5)))) = 1
   \<and> \<not> consistent ''a.com'' (recordVisits [(''a.com'', 20, NoFault)] (upgrade domains5))"
  by (simp add: clockBack_def domains5_def upgrade_def recordVisits_def addOrUpdateDomain_def
      emptyStore_def get_def put_def domainData_def rowsFor_def consistent_def)

text \<open>
  The amended claim at \<open>calls3\<close>, whose third call loses its visit row: the row of
  \<^verbatim>\<open>a.com\<close> counts the two visit rows that exist. And at \<open>clockBack\<close>: the row's
  \<^verbatim>\<open>lastVisit\<close> is the timestamp of the visit row appended last.
\<close>

theorem aggregate_matches_visit_log_witness:
  "sorted (map clock calls3) \<and> consistent ''a.com'' (recordVisits calls3 emptyStore)
   \<and> logged ''a.com'' (recordVisits calls3 emptyStore)
   \<and> get ''a.com'' (domains (recordVisits calls3 emptyStore)) =
       Some \<lparr>domain = ''a.com'', firstVisit = 10, lastVisit = 15, visitCount = 2\<rparr>
   \<and> rowsFor ''a.com'' (visits (recordVisits calls3 emptyStore)) =
       [\<lparr>visit_id = 1, visit_domain = ''a.com'', timestamp = 10\<rparr>,
        \<lparr>visit_id = 3, visit_domain = ''a.com'', timestamp = 15\<rparr>]
   \<and> logged ''a.com'' (recordVisits clockBack emptyStore)
   \<and> timestamp (last (rowsFor ''a.com'' (visits (recordVisits clockBack emptyStore)))) = 50
   \<and> logged ''a.com'' emptyStore \<and> consistent ''a.com'' emptyStore \<and> visits emptyStore = []
   \<and> consistent ''a.com'' (snd (addOrUpdateDomain ''a.com'' 12 AddFails emptyStore))
   \<and> AddFails \<noteq> NoFault
   \<and> snd (addOrUpdateDomain ''a.com'' 12 AddFails emptyStore) = emptyStore
   \<and> ahead ''a.com'' (upgrade domains5) = 5
   \<and> ahead ''a.com'' (recordVisits calls3 (upgrade domains5)) = 5"
  using aggregate_matches_visit_log [of "''a.com''" calls3 emptyStore "''a.com''" 12 AddFails]
    aggregate_matches_visit_log [of "''a.com''" clockBack emptyStore "''a.com''" 12 AddFails]
    aggregate_matches_visit_log [of "''a.com''" calls3 "upgrade domains5" "''a.com''" 12
      AddFails]
  by (simp add: calls3_def clockBack_def clock_def recordVisits_def addOrUpdateDomain_def
      emptyStore_def get_def put_def domainData_def rowsFor_def consistent_def logged_def
      ahead_def upgrade_def domains5_def)

section \<open>Clearing is all or nothing\<close>

text \<open>
  Claim C6. When \<^verbatim>\<open>clearAllDomains\<close> succeeds both stores are empty, and the listing of
  the rows, the period query and a cursor over the visits return the empty sequence.
  When it fails the database is as it was. No outcome leaves one store cleared and the
  other not. Schema version 1 has the one store \<^verbatim>\<open>domains\<close>, which is emptied or kept.
\<close>

theorem clearAll_all_or_nothing:
  "(fst (clearAllDomains f s) = Inr () \<longrightarrow>
      domains (snd (clearAllDomains f s)) = [] \<and> visits (snd (clearAllDomains f s)) = []
      \<and> getAllDomains sortBy ReadOk (domains (snd (clearAllDomains f s))) = Inr []
      \<and> getDomainsForPeriod period z now ReadOk (snd (clearAllDomains f s)) = Inr []
      \<and> openCursor start (visits (snd (clearAllDomains f s))) = [])
   \<and> (fst (clearAllDomains f s) \<noteq> Inr () \<longrightarrow> snd (clearAllDomains f s) = s)
   \<and> (snd (clearAllDomains f s) = s \<or> snd (clearAllDomains f s) = s\<lparr>domains := [], visits := []\<rparr>)
   \<and> (fst (clearAllDomains_v1 f ds) = Inr () \<longrightarrow>
      snd (clearAllDomains_v1 f ds) = []
      \<and> getAllDomains sortBy ReadOk (snd (clearAllDomains_v1 f ds)) = Inr [])
   \<and> (fst (clearAllDomains_v1 f ds) \<noteq> Inr () \<longrightarrow> snd (clearAllDomains_v1 f ds) = ds)"
  by (cases f) (simp_all add: clearAllDomains_def clearAllDomains_v1_def getAllDomains_def
      getDomainsForPeriod_def openCursor_def)

text \<open>The claim at \<open>store1\<close>: a successful clear, and a clear whose second request fails.\<close>

theorem clearAll_all_or_nothing_witness:
  "fst (clearAllDomains ClearOk store1) = Inr ()
   \<and> domains (snd (clearAllDomains ClearOk store1)) = []
   \<and> visits (snd (clearAllDomains ClearOk store1)) = []
   \<and> fst (clearAllDomains ClearVisitsFails store1) \<noteq> Inr ()
   \<and> snd (clearAllDomains ClearVisitsFails store1) = store1
   \<and> fst (clearAllDomains_v1 ClearOk (domains store1)) = Inr ()
   \<and> snd (clearAllDomains_v1 ClearOk (domains store1)) = []
   \<and> fst (clearAllDomains_v1 ClearDomainsFails (domains store1)) \<noteq> Inr ()
   \<and> snd (clearAllDomains_v1 ClearDomainsFails (domains store1)) = domains store1"
  using clearAll_all_or_nothing [of ClearOk store1 "''lastVisit''" "''all''" "fixedZone 0" 0 0
      "domains store1"]
    clearAll_all_or_nothing [of ClearVisitsFails store1 "''lastVisit''" "''all''" "fixedZone 0"
      0 0 "domains store1"]
    clearAll_all_or_nothing [of ClearDomainsFails store1 "''lastVisit''" "''all''" "fixedZone 0"
      0 0 "domains store1"]
  by (simp add: clearAllDomains_def clearAllDomains_v1_def)

section \<open>The boundary of today\<close>





lemma set_getAllDomains: "getAllDomains sortBy f ds = Inr all \<Longrightarrow> set all = set ds"
  by (auto simp: getAllDomains_def split: if_splits)











section \<open>The period query of schema version 2\<close>

lemma startDate_tag: "startDate (tag p) z now = startBoundary z p now"
  by (cases p) (simp_all add: startDate_def localMidnight_def localDate_def msPerDay_def)

lemma scan_snoc: "scan (rows @ [v]) = onVisit (scan rows) v"
  by (simp add: scan_def)

lemma fst_scan:
  "fst (scan rows) D =
     (if D \<in> set objectPrototypeKeys then Some Other
      else if rowsFor D rows = [] then None
      else Some (Is (int (length (rowsFor D rows)))))"
proof (induction rows rule: rev_induct)
  case Nil
  show ?case by (simp add: scan_def rowsFor_def emptyObject_def)
next
  case (snoc v rows)
  obtain vc lv where t: "scan rows = (vc, lv)" by (cases "scan rows")
  from snoc show ?case
    by (auto simp: scan_snoc onVisit_def t rowsFor_def)
qed

lemma snd_scan:
  "snd (scan rows) D =
     (if D \<in> set objectPrototypeKeys then Some Other
      else if rowsFor D rows = [] then None
      else Some (Is (Max (timestamp ` set (rowsFor D rows)))))"
proof (induction rows rule: rev_induct)
  case Nil
  show ?case by (simp add: scan_def rowsFor_def emptyObject_def)
next
  case (snoc v rows)
  obtain vc lv where t: "scan rows = (vc, lv)" by (cases "scan rows")
  show ?case
  proof (cases "visit_domain v = D")
    case False
    with snoc show ?thesis by (auto simp: scan_snoc onVisit_def t rowsFor_def)
  next
    case True
    show ?thesis
    proof (cases "D \<in> set objectPrototypeKeys")
      case key: True
      with snoc have "lv D = Some Other" by (simp add: t)
      with key True show ?thesis by (simp add: scan_snoc onVisit_def t)
    next
      case key: False
      show ?thesis
      proof (cases "rowsFor D rows = []")
        case True
        with snoc key \<open>visit_domain v = D\<close> show ?thesis
          by (auto simp: scan_snoc onVisit_def t rowsFor_def)
      next
        case False
        then have ne: "timestamp ` set (rowsFor D rows) \<noteq> {}" by simp
        have fin: "finite (timestamp ` set (rowsFor D rows))" by simp
        from snoc False key
        have lv: "lv D = Some (Is (Max (timestamp ` set (rowsFor D rows))))"
          by (simp add: t)
        have "Max (timestamp ` set (rowsFor D (rows @ [v]))) =
              max (timestamp v) (Max (timestamp ` set (rowsFor D rows)))"
          using Max_insert [OF fin ne, of "timestamp v"] \<open>visit_domain v = D\<close>
          by (simp add: rowsFor_def)
        then show ?thesis using lv key \<open>visit_domain v = D\<close>
          by (auto simp: scan_snoc onVisit_def t rowsFor_def max_def)
      qed
    qed
  qed
qed

lemma scan_number_timestamp:
  "fst (scan rows) D = Some (Is n) \<Longrightarrow> \<exists>l. snd (scan rows) D = Some (Is l)"
  by (auto simp: fst_scan snd_scan split: if_splits)

lemma mset_rowsFor_openCursor:
  "mset (rowsFor D (openCursor start vs)) =
   mset (filter (\<lambda>v. visit_domain v = D \<and> start \<le> timestamp v) vs)"
  by (simp add: rowsFor_def openCursor_def filter_mset_eq_conv conj_commute)

lemma mset_rowsFor_period:
  "mset (rowsFor D (openCursor (startDate (tag p) z now) (visits s))) =
   mset (matchingVisits z p now D s)"
  by (simp add: mset_rowsFor_openCursor matchingVisits_def startDate_tag)

lemma rowsFor_period_empty:
  "rowsFor D (openCursor (startDate (tag p) z now) (visits s)) = [] \<longleftrightarrow>
   matchingVisits z p now D s = []"
  using mset_rowsFor_period [of D p z now s] by (metis mset_zero_iff)

lemma length_rowsFor_period:
  "length (rowsFor D (openCursor (startDate (tag p) z now) (visits s))) =
   length (matchingVisits z p now D s)"
  using mset_rowsFor_period [of D p z now s] by (metis size_mset)

lemma set_rowsFor_period:
  "set (rowsFor D (openCursor (startDate (tag p) z now) (visits s))) =
   set (matchingVisits z p now D s)"
  using mset_rowsFor_period [of D p z now s] by (metis set_mset_mset)

lemma periodRow_scan:
  "periodRow (scan (openCursor (startDate (tag p) z now) (visits s))) a =
     (if domain a \<in> set objectPrototypeKeys \<or> matchingVisits z p now (domain a) s = []
      then None
      else Some \<lparr>domain = domain a, firstVisit = firstVisit a,
              lastVisit = Max (timestamp ` set (matchingVisits z p now (domain a) s)),
              visitCount = int (length (matchingVisits z p now (domain a) s)),
              periodVisitCount = int (length (matchingVisits z p now (domain a) s))\<rparr>)"
  by (simp add: periodRow_def fst_scan snd_scan rowsFor_period_empty length_rowsFor_period
      set_rowsFor_period)

lemma set_map_filter_eq: "set (List.map_filter g xs) = {y. \<exists>x \<in> set xs. g x = Some y}"
  by (induction xs) (auto split: option.splits)

lemma getDomainsForPeriod_Inr:
  assumes "getDomainsForPeriod (tag p) z now f s = Inr rs"
  shows "r \<in> set rs \<longleftrightarrow>
     (\<exists>a \<in> set (domains s). domain a \<notin> set objectPrototypeKeys
        \<and> matchingVisits z p now (domain a) s \<noteq> []
        \<and> r = \<lparr>domain = domain a, firstVisit = firstVisit a,
                lastVisit = Max (timestamp ` set (matchingVisits z p now (domain a) s)),
                visitCount = int (length (matchingVisits z p now (domain a) s)),
                periodVisitCount = int (length (matchingVisits z p now (domain a) s))\<rparr>)"
proof -
  from assms obtain all where all: "getAllDomains ''lastVisit'' f (domains s) = Inr all"
    and rs: "rs = List.map_filter
                    (periodRow (scan (openCursor (startDate (tag p) z now) (visits s)))) all"
    by (auto simp: getDomainsForPeriod_def split: sum.splits if_splits)
  have "set all = set (domains s)" using all by (rule set_getAllDomains)
  then show ?thesis
    unfolding rs by (auto simp: set_map_filter_eq periodRow_scan split: if_splits)
qed

lemma visitsHaveAggregate_addOrUpdateDomain:
  "visitsHaveAggregate s \<Longrightarrow> visitsHaveAggregate (snd (addOrUpdateDomain d now f s))"
  by (cases f) (auto simp: visitsHaveAggregate_def addOrUpdateDomain_def list_all_iff get_put)

lemma visitsHaveAggregate_recordVisits:
  "visitsHaveAggregate s \<Longrightarrow> visitsHaveAggregate (recordVisits cs s)"
proof (induction cs rule: rev_induct)
  case Nil
  then show ?case by (simp add: recordVisits_def)
next
  case (snoc c cs)
  obtain d now f where c: "c = (d, now, f)" by (cases c)
  from snoc show ?case
    by (simp add: c recordVisits_snoc visitsHaveAggregate_addOrUpdateDomain)
qed

lemma visitsHaveAggregate_clearAllDomains:
  "visitsHaveAggregate s \<Longrightarrow> visitsHaveAggregate (snd (clearAllDomains f s))"
  by (cases f) (simp_all add: visitsHaveAggregate_def clearAllDomains_def)

lemma visitsHaveAggregate_emptyStore: "visitsHaveAggregate emptyStore"
  by (simp add: visitsHaveAggregate_def emptyStore_def)

lemma visitsHaveAggregate_upgrade: "visitsHaveAggregate (upgrade ds)"
  by (simp add: visitsHaveAggregate_def upgrade_def)


lemma prototype_key_not_returned:
  assumes "getDomainsForPeriod (tag p) z now f s = Inr rs" and "D \<in> set objectPrototypeKeys"
  shows "D \<notin> domain ` set rs"
  using getDomainsForPeriod_Inr [OF assms(1)] assms(2) by auto


text \<open>
  Claim C7, at the input where the code breaks it. The host \<^verbatim>\<open>constructor\<close> has two
  visit rows in the period \<^verbatim>\<open>all\<close> and a row in \<^verbatim>\<open>domains\<close>, and the period query
  returns the record of \<^verbatim>\<open>a.com\<close> only: \<^verbatim>\<open>visitCounts['constructor']\<close> starts from the
  inherited function, so the count is no number and the filter drops the domain.
\<close>

theorem constructor_host_not_returned:
  "getDomainsForPeriod ''all'' (fixedZone 0) 20 ReadOk storeC =
     Inr [\<lparr>domain = ''a.com'', firstVisit = 11, lastVisit = 11, visitCount = 1,
           periodVisitCount = 1\<rparr>]
   \<and> matchingVisits (fixedZone 0) All 20 ''constructor'' storeC =
       [\<lparr>visit_id = 1, visit_domain = ''constructor'', timestamp = 10\<rparr>,
        \<lparr>visit_id = 3, visit_domain = ''constructor'', timestamp = 12\<rparr>]
   \<and> get ''constructor'' (domains storeC) =
       Some \<lparr>domain = ''constructor'', firstVisit = 10, lastVisit = 12, visitCount = 2\<rparr>
   \<and> fst (scan (openCursor (startDate ''all'' (fixedZone 0) 20) (visits storeC)))
       ''constructor'' = Some Other"
  by (simp add: storeC_eq getDomainsForPeriod_def getAllDomains_def startDate_def
      openCursor_def scan_def onVisit_def periodRow_def emptyObject_def
      objectPrototypeKeys_def matchingVisits_def get_def)











section \<open>The order of the \<^verbatim>\<open>getDomains\<close> response\<close>

lemma descendingBy_sort_key: "descendingBy k (sort_key (\<lambda>a. - k a) xs)"
proof -
  have "sorted (map (\<lambda>a. - k a) (sort_key (\<lambda>a. - k a) xs))" by (rule sorted_sort_key)
  then show ?thesis
    by (simp add: descendingBy_def sorted_wrt_rev sorted_wrt_map)
qed

lemma store1_all:
  "getDomainsForPeriod ''all'' (fixedZone 0) 30 ReadOk store1 = Inr byCount"
  by (simp add: store1_eq getDomainsForPeriod_def getAllDomains_def startDate_def
      openCursor_def scan_def onVisit_def periodRow_def emptyObject_def
      objectPrototypeKeys_def byCount_def)

text \<open>
  Claim C8, as amended. The handler of schema version 2 returns the records of the period
  query (the same records, reordered) in descending order of \<^verbatim>\<open>visitCount\<close> when
  \<^verbatim>\<open>sortBy\<close> is \<^verbatim>\<open>visitCount\<close>, and of \<^verbatim>\<open>lastVisit\<close> when \<^verbatim>\<open>sortBy\<close> is \<^verbatim>\<open>lastVisit\<close> or
  absent. The handler of \<^verbatim>\<open>background.js\<close> (schema version 1) returns them in
  descending order of \<^verbatim>\<open>visitCount\<close> whatever \<^verbatim>\<open>sortBy\<close> is.
\<close>

theorem getDomains_sorted:
  "(getDomains period sortBy z now f s = Inr rs \<and> orElse sortBy ''lastVisit'' = ''visitCount''
      \<longrightarrow> descendingBy visitCount rs)
   \<and> (getDomains period sortBy z now f s = Inr rs \<and> orElse sortBy ''lastVisit'' = ''lastVisit''
      \<longrightarrow> descendingBy lastVisit rs)
   \<and> (getDomains period sortBy z now f s = Inr rs
       \<and> getDomainsForPeriod (orElse period ''all'') z now f s = Inr unsorted
      \<longrightarrow> mset rs = mset unsorted)
   \<and> (getDomains_v1 period sortBy z now f ds = Inr found \<longrightarrow> descendingBy visitCount found)"
  by (auto simp: getDomains_def getDomains_v1_def descendingBy_sort_key
      split: sum.splits if_splits)

text \<open>
  The claim as stated fails on the handler of \<^verbatim>\<open>background.js\<close>: with \<^verbatim>\<open>sortBy\<close> absent
  the response is in order of \<^verbatim>\<open>visitCount\<close> and not in descending order of
  \<^verbatim>\<open>lastVisit\<close>.
\<close>

theorem getDomains_v1_counterexample:
  "getDomains_v1 None None (fixedZone 0) 30 ReadOk domains1 =
     Inr [\<lparr>domain = ''b.org'', firstVisit = 1, lastVisit = 10, visitCount = 2\<rparr>,
          \<lparr>domain = ''a.com'', firstVisit = 5, lastVisit = 20, visitCount = 1\<rparr>]
   \<and> \<not> descendingBy lastVisit
         [\<lparr>domain = ''b.org'', firstVisit = 1, lastVisit = 10, visitCount = 2\<rparr>,
          \<lparr>domain = ''a.com'', firstVisit = 5, lastVisit = 20, visitCount = 1\<rparr>]"
  by (simp add: getDomains_v1_def getDomainsForPeriod_v1_def getAllDomains_def domains1_def
      orElse_def filterByDate_v1_def descendingBy_def)

text \<open>The amended claim at \<open>store1\<close>, for each handler.\<close>

theorem getDomains_sorted_witness:
  "getDomains (Some ''all'') (Some ''visitCount'') (fixedZone 0) 30 ReadOk store1 = Inr byCount
   \<and> orElse (Some ''visitCount'') ''lastVisit'' = ''visitCount''
   \<and> descendingBy visitCount byCount
   \<and> getDomains None None (fixedZone 0) 30 ReadOk store1 = Inr byCount
   \<and> orElse None ''lastVisit'' = ''lastVisit''
   \<and> descendingBy lastVisit byCount
   \<and> getDomains_v1 None None (fixedZone 0) 30 ReadOk (domains store1) = Inr (map aggregate.truncate byCount)
   \<and> descendingBy visitCount (map aggregate.truncate byCount)"
proof -
  have a: "getDomains (Some ''all'') (Some ''visitCount'') (fixedZone 0) 30 ReadOk store1 = Inr byCount"
    by (simp add: getDomains_def orElse_def store1_all) (simp add: byCount_def)
  have b: "getDomains None None (fixedZone 0) 30 ReadOk store1 = Inr byCount"
    by (simp add: getDomains_def orElse_def store1_all) (simp add: byCount_def)
  have c: "getDomains_v1 None None (fixedZone 0) 30 ReadOk (domains store1) =
           Inr (map aggregate.truncate byCount)"
    by (simp add: getDomains_v1_def getDomainsForPeriod_v1_def getAllDomains_def orElse_def
        filterByDate_v1_def store1_eq byCount_def aggregate.truncate_def)
  show ?thesis
    using a b c
      getDomains_sorted [of "Some ''all''" "Some ''visitCount''" "fixedZone 0" 30 ReadOk store1 byCount
        byCount "domains store1" "map aggregate.truncate byCount"]
      getDomains_sorted [of None None "fixedZone 0" 30 ReadOk store1 byCount
        byCount "domains store1" "map aggregate.truncate byCount"]
    by (simp add: orElse_def)
qed

section \<open>The navigation listener\<close>

lemma startsWith_http: "startsWith (protocol sch) ''http'' \<longleftrightarrow> sch = Http \<or> sch = Https"
  by (cases sch) (simp_all add: startsWith_def)

lemma isUserInitiated_iff:
  "isUserInitiated d \<longleftrightarrow>
     transitionType d = ''typed'' \<or> transitionType d = ''auto_bookmark''
     \<or> transitionType d = ''auto_toplevel'' \<or> transitionType d = ''form_submit''
     \<or> transitionType d = ''reload'' \<or> transitionType d = ''link''
     \<or> (case transitionQualifiers d of None \<Rightarrow> False | Some q \<Rightarrow> ''from_address_bar'' \<in> set q)"
  by (auto simp: isUserInitiated_def userInitiatedTransitions_def split: option.splits)

lemma onCommitted_eq:
  "onCommitted parseURL trackingEnabled d =
     (if counted parseURL trackingEnabled d
      then map_option hostname (newURL parseURL (url d)) else None)"
  unfolding onCommitted_def counted_def isUserInitiated_iff [symmetric]
  by (auto simp: startsWith_http newURL_def split: option.splits)

lemma counted_parses:
  "counted parseURL trackingEnabled d \<Longrightarrow> \<exists>u. newURL parseURL (url d) = Some u"
  by (auto simp: counted_def split: option.splits)

lemma addOrUpdateDomain_v1_changes:
  "commits_v1 f \<Longrightarrow> snd (addOrUpdateDomain_v1 h now f ds) \<noteq> ds"
proof
  assume c: "commits_v1 f" and eq: "snd (addOrUpdateDomain_v1 h now f ds) = ds"
  have "get h (snd (addOrUpdateDomain_v1 h now f ds)) = Some (domainData (get h ds) h now)"
    using c by (simp add: get_addOrUpdateDomain_v1)
  with eq have g: "get h ds = Some (domainData (get h ds) h now)" by simp
  then obtain a where a: "get h ds = Some a" by (cases "get h ds") simp_all
  with g have "a = domainData (Some a) h now" by simp
  then have "visitCount a = visitCount (domainData (Some a) h now)" by simp
  then show False by (simp add: domainData_def)
qed

lemma addOrUpdateDomain_appends:
  "length (visits (snd (addOrUpdateDomain h now f s))) =
     (if f = NoFault then length (visits s) + 1 else length (visits s))"
  by (cases f) (simp_all add: addOrUpdateDomain_def)

text \<open>
  Claim C5. The listener makes its call of \<^verbatim>\<open>addOrUpdateDomain\<close>, with the hostname of
  the URL, exactly for the navigations that the specification counts: top-level,
  tracking enabled, a URL that parses with scheme http or https and a hostname that is
  not empty, and a transition type of the list or the qualifier \<^verbatim>\<open>from_address_bar\<close>. So
  a write is performed exactly then: with schema version 2 one visit row is appended
  exactly for a counted navigation whose write has no fault, and with schema version 1
  the \<^verbatim>\<open>domains\<close> store changes exactly for a counted navigation whose write commits.
  For a navigation that is not counted, an event with a \<^verbatim>\<open>frameId\<close> other than 0
  included, the database stays as it was.
\<close>

theorem onCommitted_writes_iff:
  "onCommitted parseURL trackingEnabled d =
     (if counted parseURL trackingEnabled d
      then map_option hostname (newURL parseURL (url d)) else None)
   \<and> (onCommitted parseURL trackingEnabled d \<noteq> None \<longleftrightarrow> counted parseURL trackingEnabled d)
   \<and> (length (visits (onCommittedWrite parseURL trackingEnabled now f d s)) =
         length (visits s) + 1
       \<longleftrightarrow> counted parseURL trackingEnabled d \<and> f = NoFault)
   \<and> (onCommittedWrite_v1 parseURL trackingEnabled now f d ds \<noteq> ds
       \<longleftrightarrow> counted parseURL trackingEnabled d \<and> commits_v1 f)
   \<and> (\<not> counted parseURL trackingEnabled d \<longrightarrow>
        onCommittedWrite parseURL trackingEnabled now f d s = s)
   \<and> (frameId d \<noteq> 0 \<longrightarrow>
        \<not> counted parseURL trackingEnabled d
        \<and> onCommittedWrite parseURL trackingEnabled now f d s = s
        \<and> onCommittedWrite_v1 parseURL trackingEnabled now f d ds = ds)"
proof (cases "counted parseURL trackingEnabled d")
  case False
  then show ?thesis
    by (simp add: onCommitted_eq onCommittedWrite_def onCommittedWrite_v1_def)
next
  case True
  then obtain u where u: "newURL parseURL (url d) = Some u"
    using counted_parses by blast
  have top: "frameId d = 0" using True by (simp add: counted_def)
  have v1: "onCommittedWrite_v1 parseURL trackingEnabled now f d ds \<noteq> ds \<longleftrightarrow> commits_v1 f"
  proof (cases "commits_v1 f")
    case True
    then show ?thesis
      using \<open>counted parseURL trackingEnabled d\<close>
      by (simp add: onCommitted_eq onCommittedWrite_v1_def u addOrUpdateDomain_v1_changes)
  next
    case False
    then show ?thesis
      using \<open>counted parseURL trackingEnabled d\<close>
      by (cases f)
        (simp_all add: onCommitted_eq onCommittedWrite_v1_def u addOrUpdateDomain_v1_def
          commits_v1_def)
  qed
  show ?thesis
    using True top v1
    by (simp add: onCommitted_eq onCommittedWrite_def u addOrUpdateDomain_appends)
qed

text \<open>
  The claim at a top-level link navigation to an \<^verbatim>\<open>https\<close> URL, which is recorded; at
  the same navigation in a frame, and at a top-level link navigation to a
  \<^verbatim>\<open>chrome:\<close> URL, which are not.
\<close>

theorem onCommitted_writes_iff_witness:
  "counted parseURL1 True linkToHttps
   \<and> onCommitted parseURL1 True linkToHttps = Some ''a.com''
   \<and> visits (onCommittedWrite parseURL1 True 10 NoFault linkToHttps emptyStore) =
       [\<lparr>visit_id = 1, visit_domain = ''a.com'', timestamp = 10\<rparr>]
   \<and> onCommittedWrite_v1 parseURL1 True 10 NoFault linkToHttps [] =
       [\<lparr>domain = ''a.com'', firstVisit = 10, lastVisit = 10, visitCount = 1\<rparr>]
   \<and> frameId (linkToHttps\<lparr>frameId := 1\<rparr>) \<noteq> 0
   \<and> onCommittedWrite parseURL1 True 10 NoFault (linkToHttps\<lparr>frameId := 1\<rparr>) emptyStore =
       emptyStore
   \<and> \<not> counted parseURL1 True linkToChrome
   \<and> onCommittedWrite parseURL1 True 10 NoFault linkToChrome emptyStore = emptyStore"
  using onCommitted_writes_iff [of parseURL1 True linkToHttps 10 NoFault emptyStore "[]"]
    onCommitted_writes_iff [of parseURL1 True "linkToHttps\<lparr>frameId := 1\<rparr>" 10 NoFault
      emptyStore "[]"]
    onCommitted_writes_iff [of parseURL1 True linkToChrome 10 NoFault emptyStore "[]"]
  by (simp add: counted_def newURL_def parseURL1_def linkToHttps_def linkToChrome_def
      onCommittedWrite_def onCommittedWrite_v1_def addOrUpdateDomain_def
      addOrUpdateDomain_v1_def emptyStore_def get_def put_def domainData_def)

section \<open>Quota enforcement\<close>

text \<open>
  Claim C4. With quota checking enabled and a positive \<^verbatim>\<open>maxPerDay\<close> for the domain, a
  count up to \<^verbatim>\<open>maxPerDay\<close> changes nothing in either function; a count above it makes
  \<^verbatim>\<open>maybeShowQuotaMessage\<close> call \<^verbatim>\<open>showQuotaExceededMessage\<close>, and makes
  \<^verbatim>\<open>maybeHardBlock\<close> call \<^verbatim>\<open>showHardBlockOverlay\<close> exactly when hard block is enabled.
  On a fresh page the quota check then appends the notification alone without hard
  block, and the overlay with it.
\<close>

theorem quota_strictly_greater:
  assumes "quotaEnabled cfg" and "siteQuotasCache cfg host = Some mx" and "0 < mx"
  shows "(cnt \<le> mx \<longrightarrow> maybeShowQuotaMessage cfg host cnt p = p \<and> maybeHardBlock cfg host cnt p = p)
    \<and> (mx < cnt \<longrightarrow> maybeShowQuotaMessage cfg host cnt p =
          showQuotaExceededMessage (DailyLimitExceeded host cnt mx) p)
    \<and> (mx < cnt \<and> hardBlockEnabled cfg \<longrightarrow>
          maybeHardBlock cfg host cnt p = showHardBlockOverlay host cnt mx p)
    \<and> (mx < cnt \<and> \<not> hardBlockEnabled cfg \<longrightarrow> maybeHardBlock cfg host cnt p = p)
    \<and> (mx < cnt \<and> \<not> hardBlockEnabled cfg \<longrightarrow>
          appended (checkQuota cfg host cnt freshPage) =
            [ThreatMessage (DailyLimitExceeded host cnt mx)])
    \<and> (mx < cnt \<and> hardBlockEnabled cfg \<longrightarrow>
          HardBlockOverlay host cnt mx \<in> set (appended (checkQuota cfg host cnt freshPage)))"
  using assms
  by (simp add: maybeShowQuotaMessage_def maybeHardBlock_def checkQuota_def freshPage_def
      showQuotaExceededMessage_def showHardBlockOverlay_def)

text \<open>The claim at a quota of 5: nothing at 5 visits, enforcement at 6.\<close>

theorem quota_strictly_greater_witness:
  "quotaEnabled cfgSoft \<and> siteQuotasCache cfgSoft ''a.com'' = Some 5 \<and> (0::int) < 5
   \<and> quotaEnabled cfgHard \<and> siteQuotasCache cfgHard ''a.com'' = Some 5
   \<and> \<not> hardBlockEnabled cfgSoft \<and> hardBlockEnabled cfgHard
   \<and> maybeShowQuotaMessage cfgSoft ''a.com'' 5 freshPage = freshPage
   \<and> maybeHardBlock cfgHard ''a.com'' 5 freshPage = freshPage
   \<and> appended (checkQuota cfgSoft ''a.com'' 6 freshPage) =
       [ThreatMessage (DailyLimitExceeded ''a.com'' 6 5)]
   \<and> HardBlockOverlay ''a.com'' 6 5 \<in> set (appended (checkQuota cfgHard ''a.com'' 6 freshPage))"
  using quota_strictly_greater [of cfgSoft "''a.com''" 5 5 freshPage]
    quota_strictly_greater [of cfgHard "''a.com''" 5 5 freshPage]
    quota_strictly_greater [of cfgSoft "''a.com''" 5 6 freshPage]
    quota_strictly_greater [of cfgHard "''a.com''" 5 6 freshPage]
  by (simp add: cfgSoft_def cfgHard_def)

lemma atMostOnce_showQuota: "atMostOnce p \<Longrightarrow> atMostOnce (showQuotaExceededMessage txt p)"
  by (auto simp: atMostOnce_def showQuotaExceededMessage_def split: if_splits)

lemma atMostOnce_showOverlay: "atMostOnce p \<Longrightarrow> atMostOnce (showHardBlockOverlay h n m p)"
  by (auto simp: atMostOnce_def showHardBlockOverlay_def split: if_splits)

lemma atMostOnce_dispatch: "atMostOnce p \<Longrightarrow> atMostOnce (dispatch p i)"
  by (cases i) (simp_all add: atMostOnce_showQuota atMostOnce_showOverlay
      maybeShowQuotaMessage_def maybeHardBlock_def Let_def)

lemma atMostOnce_run: "atMostOnce p \<Longrightarrow> atMostOnce (foldl dispatch p is)"
  by (induction "is" arbitrary: p) (simp_all add: atMostOnce_dispatch)

text \<open>
  Claim C9. After any run of invocations on a fresh page, of the two enforcement
  functions directly or through the quota checks, the page has appended at most one
  notification and at most one overlay. A second call of either function changes
  nothing.
\<close>

theorem enforcement_at_most_once:
  "length (filter isThreatMessage (appended (foldl dispatch freshPage is))) \<le> 1
   \<and> length (filter isOverlay (appended (foldl dispatch freshPage is))) \<le> 1
   \<and> showQuotaExceededMessage t2 (showQuotaExceededMessage t1 p) = showQuotaExceededMessage t1 p
   \<and> showHardBlockOverlay h2 n2 m2 (showHardBlockOverlay h1 n1 m1 p) =
       showHardBlockOverlay h1 n1 m1 p"
proof -
  have "atMostOnce freshPage" by (simp add: atMostOnce_def freshPage_def)
  then have "atMostOnce (foldl dispatch freshPage is)" by (rule atMostOnce_run)
  then show ?thesis
    by (simp add: atMostOnce_def showQuotaExceededMessage_def showHardBlockOverlay_def)
qed

text \<open>The claim at five invocations, which append one notification and one overlay.\<close>

theorem enforcement_at_most_once_witness:
  "appended (foldl dispatch freshPage invocations1) =
     [ThreatMessage (DailyLimitExceeded ''a.com'' 6 5), HardBlockOverlay ''a.com'' 6 5]
   \<and> length (filter isThreatMessage (appended (foldl dispatch freshPage invocations1))) \<le> 1
   \<and> length (filter isOverlay (appended (foldl dispatch freshPage invocations1))) \<le> 1"
  using enforcement_at_most_once [of invocations1]
  by (simp add: invocations1_def cfgHard_def freshPage_def maybeShowQuotaMessage_def
      maybeHardBlock_def showQuotaExceededMessage_def showHardBlockOverlay_def)

end
